theory Spec2Isabelle
  imports Main "HOL-Library.Word"
begin

unbundle bit_operations_syntax

section \<open>Utilities\<close>

text \<open>
  The library is a header of \<open>consteval\<close> functions: every call is evaluated by the
  compiler, and a call whose evaluation is not a constant expression (undefined behaviour,
  an exception, a recursion that never ends) is rejected.  The model writes such an outcome
  as \<open>None\<close>, and at the public interface as an \<open>error\<close>.  Bytes are \<open>8 word\<close>,
  \<open>std::uint32_t\<close> and \<open>std::uint64_t\<close> are \<open>32 word\<close> and \<open>64 word\<close>,
  and \<open>std::size_t\<close> is a natural number reduced modulo \<open>2 ^ 64\<close> wherever the source
  computes with it.
\<close>

type_synonym byte = "8 word"

datatype endian = little | big

datatype error = constraints_not_satisfied | not_a_constant_expression | invalid_argument

definition of_option :: "'a option \<Rightarrow> error + 'a" where
  "of_option x = (case x of None \<Rightarrow> Inl not_a_constant_expression | Some y \<Rightarrow> Inr y)"

definition size_t :: "nat \<Rightarrow> nat" where
  "size_t n = n mod 2 ^ 64"

definition bits_per_byte :: nat where
  "bits_per_byte = 8"

text \<open>\<open>sizeof\<close> of a word; \<open>bits<data_t>\<close> of the source is \<open>sizeof * bits_per_byte\<close>.\<close>

definition sizeof :: "'a::len word \<Rightarrow> nat" where
  "sizeof x = LENGTH('a) div bits_per_byte"

definition bytes :: "nat \<Rightarrow> nat" where
  "bytes bits = size_t (bits + (bits_per_byte - 1)) div bits_per_byte"

definition byte_swap :: "'a::len word \<Rightarrow> 'a word" where
  "byte_swap value =
     fold (\<lambda>byte_index swapped.
             let byte_value = drop_bit (byte_index * bits_per_byte)
                                (value AND push_bit (byte_index * bits_per_byte) 0xff)
             in swapped OR push_bit ((sizeof value - byte_index - 1) * bits_per_byte) byte_value)
          [0..<sizeof value] 0"

definition big_endian_to_host :: "endian \<Rightarrow> 'a::len word \<Rightarrow> 'a word" where
  "big_endian_to_host native value = (if native = little then byte_swap value else value)"

definition to_bytes :: "endian \<Rightarrow> 'a::len word list \<Rightarrow> byte list" where
  "to_bytes endianness value =
     concat (map (\<lambda>element.
                    map (\<lambda>byte_index.
                           let shift = (if endianness = little then byte_index * bits_per_byte
                                        else (sizeof element - byte_index - 1) * bits_per_byte)
                           in ucast (drop_bit shift (element AND push_bit shift 0xff)))
                        [0..<sizeof element])
                 value)"

definition generate_array :: "nat \<Rightarrow> (nat \<Rightarrow> 'a) \<Rightarrow> 'a list" where
  "generate_array num_elements func = map func [0..<num_elements]"


section \<open>Quad-precision floating point\<close>

text \<open>
  \<open>__float128\<close> is IEEE 754 binary128: a sign, a 113-bit significand and a binary exponent
  between \<open>-16382\<close> and \<open>16383\<close>; every operation returns the exact result rounded to the nearest
  representable value, ties to even.  \<open>Float128 m e\<close> stands for the number \<open>m * 2 ^ e\<close>
  with \<open>m\<close> odd (or \<open>m = 0\<close> and \<open>e = 0\<close>), so that every finite value has one representation.
  Infinities, NaN, subnormal numbers and the sign of zero are not modelled: an operation
  whose result would need them returns \<open>None\<close>.
\<close>

datatype float128 = Float128 int int

function bitlen :: "int \<Rightarrow> nat" where
  "bitlen n = (if n \<le> 0 then 0 else Suc (bitlen (n div 2)))"
  by pat_completeness auto
termination
  by (relation "measure nat") auto

declare bitlen.simps [simp del]

function ctz :: "int \<Rightarrow> nat" where
  "ctz n = (if n = 0 \<or> odd n then 0 else Suc (ctz (n div 2)))"
  by pat_completeness auto
termination
  by (relation "measure (\<lambda>n. nat \<bar>n\<bar>)") auto

declare ctz.simps [simp del]

text \<open>
  Rounding a positive integer to \<open>p\<close> significant bits: the result is \<open>(q, k)\<close> with
  \<open>q * 2 ^ k\<close> the nearest such value.  The bit below the last kept one decides, and on a tie
  (no lower bit set) the even neighbour wins.
\<close>

definition round_to_precision :: "nat \<Rightarrow> int \<Rightarrow> int \<times> nat" where
  "round_to_precision p n =
     (let k = bitlen n - p in
      if k = 0 then (n, 0)
      else let q = drop_bit k n
           in (if bit n (k - 1) \<and> (ctz n < k - 1 \<or> odd q) then q + 1 else q, k))"

text \<open>The binary128 value nearest to the exact number \<open>m * 2 ^ e\<close>.\<close>

definition float128_of :: "int \<Rightarrow> int \<Rightarrow> float128 option" where
  "float128_of m e =
     (if m = 0 then Some (Float128 0 0)
      else case round_to_precision 113 \<bar>m\<bar> of (q, k) \<Rightarrow>
        let z = ctz q; a = drop_bit z q; e' = e + int k + int z;
            top = e' + int (bitlen a) - 1
        in if top < - 16382 \<or> 16383 < top then None
           else Some (Float128 (if m < 0 then - a else a) e'))"

definition float128_of_int :: "int \<Rightarrow> float128 option" where
  "float128_of_int n = float128_of n 0"

definition float128_one :: float128 where
  "float128_one = Float128 1 0"

fun f128_mul :: "float128 \<Rightarrow> float128 \<Rightarrow> float128 option" where
  "f128_mul (Float128 m1 e1) (Float128 m2 e2) = float128_of (m1 * m2) (e1 + e2)"

fun f128_add :: "float128 \<Rightarrow> float128 \<Rightarrow> float128 option" where
  "f128_add (Float128 m1 e1) (Float128 m2 e2) =
     (if e1 \<le> e2 then float128_of (m1 + push_bit (nat (e2 - e1)) m2) e1
      else float128_of (push_bit (nat (e1 - e2)) m1 + m2) e2)"

fun f128_neg :: "float128 \<Rightarrow> float128" where
  "f128_neg (Float128 m e) = Float128 (- m) e"

definition f128_sub :: "float128 \<Rightarrow> float128 \<Rightarrow> float128 option" where
  "f128_sub x y = f128_add x (f128_neg y)"

text \<open>
  Division: \<open>scaled_quotient a d s\<close> is the integer quotient of \<open>a * 2 ^ s\<close> by \<open>d\<close> and
  whether a remainder is left.  With \<open>s\<close> chosen so that the quotient has at least 115 bits,
  the quotient with the remainder flag appended as a last bit rounds as the exact quotient does.
\<close>

definition scaled_quotient :: "int \<Rightarrow> int \<Rightarrow> nat \<Rightarrow> int \<times> bool" where
  "scaled_quotient a d s = (push_bit s a div d, push_bit s a mod d \<noteq> 0)"

fun f128_div :: "float128 \<Rightarrow> float128 \<Rightarrow> float128 option" where
  "f128_div (Float128 m1 e1) (Float128 m2 e2) =
     (if m2 = 0 then None
      else let s = (115 + bitlen \<bar>m2\<bar>) - bitlen \<bar>m1\<bar>
           in case scaled_quotient \<bar>m1\<bar> \<bar>m2\<bar> s of (q, sticky) \<Rightarrow>
                float128_of ((if (m1 < 0) = (m2 < 0) then 1 else - 1) * (2 * q + (if sticky then 1 else 0)))
                  (e1 - e2 - int s - 1))"

fun f128_le :: "float128 \<Rightarrow> float128 \<Rightarrow> bool" where
  "f128_le (Float128 m1 e1) (Float128 m2 e2) =
     (if e1 \<le> e2 then m1 \<le> push_bit (nat (e2 - e1)) m2 else push_bit (nat (e1 - e2)) m1 \<le> m2)"

text \<open>Conversion to an integer truncates towards zero.\<close>

fun f128_truncate :: "float128 \<Rightarrow> int" where
  "f128_truncate (Float128 m e) =
     (if 0 \<le> e then push_bit (nat e) m
      else if 0 \<le> m then drop_bit (nat (- e)) m else - drop_bit (nat (- e)) (- m))"

text \<open>
  \<open>static_cast<__int128_t>\<close> and \<open>static_cast<word_t>\<close> of a floating value: the truncated
  value has to be representable in the target type, otherwise the behaviour is undefined.
\<close>

definition f128_to_int128 :: "float128 \<Rightarrow> int option" where
  "f128_to_int128 x = (let t = f128_truncate x in if - (2 ^ 127) \<le> t \<and> t < 2 ^ 127 then Some t else None)"

definition f128_to_word :: "float128 \<Rightarrow> 'a::len word option" where
  "f128_to_word x = (let t = f128_truncate x in if 0 \<le> t \<and> t < 2 ^ LENGTH('a) then Some (word_of_int t) else None)"

text \<open>
  The literal \<open>1.0e-32\<close> has type \<open>double\<close>: it is the binary64 value nearest to
  \<open>10 ^ - 32\<close>, which is \<open>0x19f623d5a8a733 * 2 ^ - 159\<close>, converted to \<open>__float128\<close> unchanged.
\<close>

definition double_1e_32 :: float128 where
  "double_1e_32 = Float128 0x19f623d5a8a733 (- 159)"

text \<open>The loop \<open>for (i = 0; i < root - 2; ++i, exp *= guess)\<close>, with \<open>root - 2\<close> computed in \<open>size_t\<close>.\<close>

fun power_loop :: "nat \<Rightarrow> float128 \<Rightarrow> float128 \<Rightarrow> float128 option" where
  "power_loop 0 guess exp = Some exp"
| "power_loop (Suc n) guess exp =
     (case f128_mul exp guess of None \<Rightarrow> None | Some exp' \<Rightarrow> power_loop n guess exp')"

definition size_t_minus_2 :: "nat \<Rightarrow> nat" where
  "size_t_minus_2 root = (if 2 \<le> root then root - 2 else root + 2 ^ 64 - 2)"

text \<open>
  Newton-Raphson iteration for the \<open>root\<close>-th root.  The recursion ends when two successive
  guesses differ by at most \<open>1.0e-32\<close>; nothing in the source bounds the number of steps, so the
  model is a partial function and \<open>None\<close> also stands for a recursion that never returns.
\<close>

partial_function (option) float128_root :: "float128 \<Rightarrow> nat \<Rightarrow> float128 \<Rightarrow> float128 option" where
  "float128_root value root guess =
     (case power_loop (size_t_minus_2 root) guess guess of None \<Rightarrow> None | Some exp \<Rightarrow>
      (case float128_of_int (int root) of None \<Rightarrow> None | Some froot \<Rightarrow>
      (case f128_sub froot float128_one of None \<Rightarrow> None | Some root_minus_1 \<Rightarrow>
      (case f128_mul root_minus_1 guess of None \<Rightarrow> None | Some scaled_guess \<Rightarrow>
      (case f128_div value exp of None \<Rightarrow> None | Some ratio \<Rightarrow>
      (case f128_add scaled_guess ratio of None \<Rightarrow> None | Some numerator \<Rightarrow>
      (case f128_div numerator froot of None \<Rightarrow> None | Some guess2 \<Rightarrow>
      (case f128_sub guess guess2 of None \<Rightarrow> None | Some difference \<Rightarrow>
         if f128_le difference double_1e_32 \<and> f128_le (f128_neg double_1e_32) difference
         then Some guess
         else float128_root value root guess2))))))))"

text \<open>
  A call \<open>float128_root(n, root)\<close> with an integer first argument: the integer is converted to
  \<open>__float128\<close> and the guess takes its default \<open>1.0\<close>.
\<close>

definition float128_root_of :: "int \<Rightarrow> nat \<Rightarrow> float128 option" where
  "float128_root_of n root =
     (case float128_of_int n of None \<Rightarrow> None | Some value \<Rightarrow> float128_root value root float128_one)"


subsection \<open>Long division on bit strings\<close>

text \<open>
  \<open>scaled_quotient\<close> is evaluated by schoolbook long division on bit strings, least
  significant bit first: one comparison and one subtraction of the divisor per quotient bit.
  The functions below are that algorithm; it is proved equal to \<open>scaled_quotient\<close> further down
  and then used as its code equation.
\<close>

datatype bits = BE | B0 bits | B1 bits

fun bval :: "bits \<Rightarrow> int" where
  "bval BE = 0"
| "bval (B0 r) = 2 * bval r"
| "bval (B1 r) = 2 * bval r + 1"

fun blen :: "bits \<Rightarrow> nat" where
  "blen BE = 0"
| "blen (B0 r) = Suc (blen r)"
| "blen (B1 r) = Suc (blen r)"

fun bits_of :: "nat \<Rightarrow> int \<Rightarrow> bits" where
  "bits_of 0 n = BE"
| "bits_of (Suc w) n = (if odd n then B1 (bits_of w (n div 2)) else B0 (bits_of w (n div 2)))"

text \<open>\<open>bge True r d\<close>: is \<open>r\<close> at least \<open>d\<close> (both of the same width).\<close>

fun bge :: "bool \<Rightarrow> bits \<Rightarrow> bits \<Rightarrow> bool" where
  "bge acc (B0 r) (B0 d) = bge acc r d"
| "bge acc (B1 r) (B1 d) = bge acc r d"
| "bge acc (B1 r) (B0 d) = bge True r d"
| "bge acc (B0 r) (B1 d) = bge False r d"
| "bge acc _ _ = acc"

text \<open>\<open>bsub r d\<close> is \<open>r - d\<close> and \<open>bsubc r d\<close> is \<open>r - d - 1\<close>, both without the top bit.\<close>

fun bsub :: "bits \<Rightarrow> bits \<Rightarrow> bits"
  and bsubc :: "bits \<Rightarrow> bits \<Rightarrow> bits" where
  "bsub (B0 BE) _ = BE"
| "bsub (B1 BE) _ = BE"
| "bsub (B0 r) (B0 d) = B0 (bsub r d)"
| "bsub (B1 r) (B0 d) = B1 (bsub r d)"
| "bsub (B1 r) (B1 d) = B0 (bsub r d)"
| "bsub (B0 r) (B1 d) = B1 (bsubc r d)"
| "bsub _ _ = BE"
| "bsubc (B0 BE) _ = BE"
| "bsubc (B1 BE) _ = BE"
| "bsubc (B0 r) (B0 d) = B1 (bsubc r d)"
| "bsubc (B1 r) (B0 d) = B0 (bsub r d)"
| "bsubc (B1 r) (B1 d) = B1 (bsubc r d)"
| "bsubc (B0 r) (B1 d) = B0 (bsubc r d)"
| "bsubc _ _ = BE"

fun bdrop :: "bits \<Rightarrow> bits" where
  "bdrop (B0 BE) = BE"
| "bdrop (B1 BE) = BE"
| "bdrop (B0 r) = B0 (bdrop r)"
| "bdrop (B1 r) = B1 (bdrop r)"
| "bdrop BE = BE"

fun bnz :: "bits \<Rightarrow> bool" where
  "bnz BE = False"
| "bnz (B1 r) = True"
| "bnz (B0 r) = bnz r"

text \<open>The low \<open>k\<close> bits of \<open>n\<close>, most significant first, in front of \<open>acc\<close>.\<close>

fun low_bits_rev :: "nat \<Rightarrow> int \<Rightarrow> bool list \<Rightarrow> bool list" where
  "low_bits_rev 0 n acc = acc"
| "low_bits_rev (Suc k) n acc = low_bits_rev k (n div 2) (odd n # acc)"

fun feed :: "int \<Rightarrow> bool list \<Rightarrow> int" where
  "feed n [] = n"
| "feed n (b # bs) = feed (2 * n + (if b then 1 else 0)) bs"

text \<open>
  \<open>qloop bs r d q\<close>: the partial remainder \<open>r\<close> (below twice the divisor \<open>d\<close>) and the quotient
  bits \<open>q\<close> found so far, with the numerator bits \<open>bs\<close> still to bring down.
\<close>

fun qloop :: "bool list \<Rightarrow> bits \<Rightarrow> bits \<Rightarrow> int \<Rightarrow> int \<times> bool" where
  "qloop [] r d q = (if bge True r d then (2 * q + 1, bnz (bsub r d)) else (2 * q, bnz r))"
| "qloop (b # bs) r d q =
     (if bge True r d then qloop bs (if b then B1 (bsub r d) else B0 (bsub r d)) d (2 * q + 1)
      else qloop bs (if b then B1 (bdrop r) else B0 (bdrop r)) d (2 * q))"


section \<open>Primes\<close>

text \<open>
  Trial division on \<open>std::uint64_t\<close>.  \<open>divisor * divisor\<close> wraps around, and a remainder by
  zero is undefined behaviour, written \<open>None\<close>.
\<close>

function is_prime :: "64 word \<Rightarrow> 64 word \<Rightarrow> bool option" where
  "is_prime value divisor =
     (if value < divisor * divisor then Some True
      else if divisor = 0 then None
      else if value mod divisor = 0 then Some False
      else is_prime value (divisor + 1))"
  by pat_completeness auto
termination
proof (relation "measure (\<lambda>(value, divisor). if divisor = 0 then 0 else 2 ^ 64 - unat divisor)")
  show "wf (measure (\<lambda>(value :: 64 word, divisor :: 64 word). if divisor = 0 then 0 else 2 ^ 64 - unat divisor))"
    by simp
next
  fix v d :: "64 word"
  assume nz: "d \<noteq> 0"
  have lt: "unat d < 2 ^ 64" using unsigned_less [of d, where 'a = nat] by simp
  have suc: "d + 1 \<noteq> 0 \<Longrightarrow> unat (d + 1) = Suc (unat d)"
    using unatSuc [of d] by (simp add: add.commute)
  show "((v, d + 1), (v, d))
      \<in> measure (\<lambda>(value, divisor). if divisor = 0 then 0 else 2 ^ 64 - unat divisor)"
  proof (cases "d + 1 = 0")
    case True
    with nz lt show ?thesis by simp
  next
    case False
    with nz lt suc [OF False] show ?thesis by simp
  qed
qed

declare is_prime.simps [simp del]

function next_prime :: "64 word \<Rightarrow> 64 word option" where
  "next_prime value =
     (case is_prime value 2 of None \<Rightarrow> None
      | Some True \<Rightarrow> Some value
      | Some False \<Rightarrow> next_prime (value + 1))"
  by pat_completeness auto
termination
proof (relation "measure (\<lambda>value. if value = 0 then 0 else 2 ^ 64 - unat value)")
  show "wf (measure (\<lambda>value :: 64 word. if value = 0 then 0 else 2 ^ 64 - unat value))"
    by simp
next
  fix v :: "64 word" and x2 :: bool
  assume a: "is_prime v 2 = Some x2" "x2 = False"
  have "is_prime 0 2 = Some True" by (subst is_prime.simps) simp
  with a have nz: "v \<noteq> 0" by (cases "v = 0") simp_all
  have lt: "unat v < 2 ^ 64" using unsigned_less [of v, where 'a = nat] by simp
  have suc: "v + 1 \<noteq> 0 \<Longrightarrow> unat (v + 1) = Suc (unat v)"
    using unatSuc [of v] by (simp add: add.commute)
  show "(v + 1, v) \<in> measure (\<lambda>value. if value = 0 then 0 else 2 ^ 64 - unat value)"
  proof (cases "v + 1 = 0")
    case True
    with nz lt show ?thesis by simp
  next
    case False
    with nz lt suc [OF False] show ?thesis by simp
  qed
qed

declare next_prime.simps [simp del]

text \<open>\<open>prime(index, value = 2)\<close>: the index counts down to zero.\<close>

fun prime :: "nat \<Rightarrow> 64 word \<Rightarrow> 64 word option" where
  "prime 0 value = Some value"
| "prime (Suc index) value =
     (case next_prime (value + 1) of None \<Rightarrow> None | Some p \<Rightarrow> prime index p)"


section \<open>Generic SHA functions\<close>

text \<open>
  The concept \<open>sha_word\<close> admits \<open>std::uint32_t\<close> and \<open>std::uint64_t\<close> only; the functions
  below are written for any word length and are used at 32 and 64 bits.  The rotations are
  instantiated with \<open>0 < num_bits < bits<word_t>\<close>.
\<close>

definition rotate_right :: "nat \<Rightarrow> 'a::len word \<Rightarrow> 'a word" where
  "rotate_right num_bits x = drop_bit num_bits x OR push_bit (LENGTH('a) - num_bits) x"

definition rotate_left :: "nat \<Rightarrow> 'a::len word \<Rightarrow> 'a word" where
  "rotate_left num_bits x = push_bit num_bits x OR drop_bit (LENGTH('a) - num_bits) x"

definition choose_word :: "'a::len word \<Rightarrow> 'a word \<Rightarrow> 'a word \<Rightarrow> 'a word" where
  "choose_word x y z = (x AND y) XOR (NOT x AND z)"

definition majority :: "'a::len word \<Rightarrow> 'a word \<Rightarrow> 'a word \<Rightarrow> 'a word" where
  "majority x y z = (x AND y) XOR (x AND z) XOR (y AND z)"

definition parity :: "32 word \<Rightarrow> 32 word \<Rightarrow> 32 word \<Rightarrow> 32 word" where
  "parity x y z = x XOR y XOR z"

text \<open>
  The four functions of FIPS 180-4 section 4.1 are overloaded in the source, one body for
  \<open>std::uint32_t\<close> and one for \<open>std::uint64_t\<close>; the model chooses by the word length.
\<close>

definition Sigma0 :: "'a::len word \<Rightarrow> 'a word" where
  "Sigma0 x = (if LENGTH('a) = 32 then rotate_right 2 x XOR rotate_right 13 x XOR rotate_right 22 x
               else rotate_right 28 x XOR rotate_right 34 x XOR rotate_right 39 x)"

definition Sigma1 :: "'a::len word \<Rightarrow> 'a word" where
  "Sigma1 x = (if LENGTH('a) = 32 then rotate_right 6 x XOR rotate_right 11 x XOR rotate_right 25 x
               else rotate_right 14 x XOR rotate_right 18 x XOR rotate_right 41 x)"

definition sigma0 :: "'a::len word \<Rightarrow> 'a word" where
  "sigma0 x = (if LENGTH('a) = 32 then rotate_right 7 x XOR rotate_right 18 x XOR drop_bit 3 x
               else rotate_right 1 x XOR rotate_right 8 x XOR drop_bit 7 x)"

definition sigma1 :: "'a::len word \<Rightarrow> 'a word" where
  "sigma1 x = (if LENGTH('a) = 32 then rotate_right 17 x XOR rotate_right 19 x XOR drop_bit 10 x
               else rotate_right 19 x XOR rotate_right 61 x XOR drop_bit 6 x)"

subsection \<open>Message preprocessing\<close>

text \<open>
  \<open>std::copy\<close> of \<open>src\<close> to position \<open>pos\<close> of \<open>dst\<close>; the callers check that the range lies
  inside \<open>dst\<close>, where the source would write out of bounds.
\<close>

definition copy_into :: "'a list \<Rightarrow> nat \<Rightarrow> 'a list \<Rightarrow> 'a list" where
  "copy_into src pos dst = take pos dst @ src @ drop (pos + length src) dst"

text \<open>The number of blocks, computed in \<open>size_t\<close> as the source does.\<close>

definition num_blocks :: "nat \<Rightarrow> nat \<Rightarrow> nat" where
  "num_blocks sizeof_word original_bytes =
     (let bits_word = sizeof_word * bits_per_byte;
          bits_block = 16 * sizeof_word * bits_per_byte;
          min_bits = size_t (original_bytes * bits_per_byte + 1 + 2 * bits_word)
      in size_t (min_bits + (bits_block - 1)) div bits_block)"

text \<open>
  The byte buffer \<open>message\<close> of \<open>preprocess_message\<close>: zero-initialised, the original message
  copied to its start, the byte \<open>0x80\<close> stored behind it and the eight bytes of the 64-bit
  bit count copied to its end.  A write outside the buffer makes the call fail.
\<close>

definition padded_message :: "nat \<Rightarrow> byte list \<Rightarrow> byte list option" where
  "padded_message sizeof_word original_message =
     (let original_bytes = length original_message;
          message_size = num_blocks sizeof_word original_bytes * (16 * sizeof_word);
          size = to_bytes big [word_of_nat original_bytes * word_of_nat bits_per_byte :: 64 word]
      in if original_bytes < message_size \<and> length size \<le> message_size
         then Some (copy_into size (message_size - length size)
                     ((copy_into original_message 0 (replicate message_size 0))
                        [original_bytes := 0x80]))
         else None)"

text \<open>One word of a block: \<open>word |= static_cast<word_t>(*bytes_iter) << (byte_index * bits_per_byte)\<close>.\<close>

definition load_word :: "byte list \<Rightarrow> 'a::len word" where
  "load_word bs =
     fold (\<lambda>byte_index word. word OR push_bit (byte_index * bits_per_byte) (ucast (bs ! byte_index)))
          [0..<LENGTH('a) div bits_per_byte] 0"

definition preprocess_message :: "byte list \<Rightarrow> 'a::len word list list option" where
  "preprocess_message original_message =
     (let sizeof_word = LENGTH('a) div bits_per_byte
      in case padded_message sizeof_word original_message of
           None \<Rightarrow> None
         | Some message \<Rightarrow>
             Some (map (\<lambda>block.
                          map (\<lambda>word. load_word (take sizeof_word
                                                  (drop ((block * 16 + word) * sizeof_word) message)))
                              [0..<16])
                       [0..<num_blocks sizeof_word (length original_message)]))"

section \<open>Constants\<close>

definition sha1_functions :: "(32 word \<Rightarrow> 32 word \<Rightarrow> 32 word \<Rightarrow> 32 word) list" where
  "sha1_functions = generate_array 80 (\<lambda>index. [choose_word, parity, majority, parity] ! (index div 20))"

text \<open>\<open>static_cast<uint32_t>(float128_root(roots.at(index / 20), 2) * (1 << 30))\<close>\<close>

definition sha1_constant :: "nat \<Rightarrow> 32 word option" where
  "sha1_constant index =
     (case float128_root_of (uint ([2, 3, 5, 10 :: 32 word] ! (index div 20))) 2 of None \<Rightarrow> None
      | Some r \<Rightarrow>
     (case float128_of_int (push_bit 30 1) of None \<Rightarrow> None | Some scale \<Rightarrow>
     (case f128_mul r scale of None \<Rightarrow> None | Some scaled \<Rightarrow> f128_to_word scaled)))"

definition sha1_constants :: "32 word list option" where
  "sha1_constants = those (generate_array 80 sha1_constant)"

definition sha1_initialization_vector :: "32 word list" where
  "sha1_initialization_vector =
     [byte_swap 0x01234567, byte_swap 0x89abcdef, byte_swap 0xfedcba98,
      byte_swap 0x76543210, byte_swap 0xf0e1d2c3]"

text \<open>
  The last three statements of \<open>sha2_constant\<close>: the integer part is removed, the fraction is
  scaled by \<open>2 ^ bits<word_t>\<close> and truncated to a word.
\<close>

definition fractional_bits :: "float128 \<Rightarrow> 'a::len word option" where
  "fractional_bits value =
     (case f128_to_int128 value of None \<Rightarrow> None | Some whole \<Rightarrow>
     (case float128_of_int whole of None \<Rightarrow> None | Some fwhole \<Rightarrow>
     (case f128_sub value fwhole of None \<Rightarrow> None | Some fractional \<Rightarrow>
     (case float128_of_int (push_bit LENGTH('a) 1) of None \<Rightarrow> None | Some scale \<Rightarrow>
     (case f128_mul fractional scale of None \<Rightarrow> None | Some big_fractional \<Rightarrow>
        f128_to_word big_fractional)))))"

definition sha2_constant :: "'a::len word \<Rightarrow> nat \<Rightarrow> 'a word option" where
  "sha2_constant prime_number root =
     (case float128_root_of (uint prime_number) root of None \<Rightarrow> None
      | Some value \<Rightarrow> fractional_bits value)"

definition sha2_32_bit_constants :: "32 word list option" where
  "sha2_32_bit_constants =
     those (generate_array 64 (\<lambda>index.
       case prime index 2 of None \<Rightarrow> None | Some p \<Rightarrow> sha2_constant (ucast p :: 32 word) 3))"

definition sha2_64_bit_constants :: "64 word list option" where
  "sha2_64_bit_constants =
     those (generate_array 80 (\<lambda>index.
       case prime index 2 of None \<Rightarrow> None | Some p \<Rightarrow> sha2_constant p 3))"

definition sha224_initialization_vector :: "32 word list option" where
  "sha224_initialization_vector =
     those (generate_array 8 (\<lambda>index.
       case prime (index + 8) 2 of None \<Rightarrow> None
       | Some p \<Rightarrow> map_option ucast (sha2_constant p 2)))"

definition sha256_initialization_vector :: "32 word list option" where
  "sha256_initialization_vector =
     those (generate_array 8 (\<lambda>index.
       case prime index 2 of None \<Rightarrow> None | Some p \<Rightarrow> sha2_constant (ucast p :: 32 word) 2))"

definition sha384_initialization_vector :: "64 word list option" where
  "sha384_initialization_vector =
     those (generate_array 8 (\<lambda>index.
       case prime (index + 8) 2 of None \<Rightarrow> None | Some p \<Rightarrow> sha2_constant p 2))"

definition sha512_initialization_vector :: "64 word list option" where
  "sha512_initialization_vector =
     those (generate_array 8 (\<lambda>index.
       case prime index 2 of None \<Rightarrow> None | Some p \<Rightarrow> sha2_constant p 2))"

section \<open>Top-level hash functions\<close>

subsection \<open>SHA-1\<close>

definition sha1_schedule :: "endian \<Rightarrow> 32 word list \<Rightarrow> 32 word list" where
  "sha1_schedule native block =
     fold (\<lambda>t w. w[t := (if t < 16 then big_endian_to_host native (block ! t)
                           else rotate_left 1 (w ! (t - 3) XOR w ! (t - 8) XOR w ! (t - 14) XOR w ! (t - 16)))])
          [0..<80] (replicate 80 0)"

definition sha1_round :: "32 word list \<Rightarrow> 32 word list \<Rightarrow> nat \<Rightarrow> 32 word list \<Rightarrow> 32 word list" where
  "sha1_round constants w t v =
     (let upper_t = rotate_left 5 (v ! 0) + (sha1_functions ! t) (v ! 1) (v ! 2) (v ! 3)
                    + v ! 4 + constants ! t + w ! t;
          v = v[4 := v ! 3];
          v = v[3 := v ! 2];
          v = v[2 := rotate_left 30 (v ! 1)];
          v = v[1 := v ! 0]
      in v[0 := upper_t])"

definition sha1_block :: "endian \<Rightarrow> 32 word list \<Rightarrow> 32 word list \<Rightarrow> 32 word list \<Rightarrow> 32 word list" where
  "sha1_block native constants block state =
     (let w = sha1_schedule native block;
          v = fold (sha1_round constants w) [0..<80] state
      in map2 (+) v state)"

definition detail_sha1 :: "endian \<Rightarrow> byte list \<Rightarrow> byte list option" where
  "detail_sha1 native message =
     (case sha1_constants of None \<Rightarrow> None | Some constants \<Rightarrow>
     (case preprocess_message message of None \<Rightarrow> None | Some blocks \<Rightarrow>
        Some (to_bytes big (fold (sha1_block native constants) blocks sha1_initialization_vector))))"

subsection \<open>SHA-2\<close>

definition sha2_schedule :: "endian \<Rightarrow> nat \<Rightarrow> 'a::len word list \<Rightarrow> 'a word list" where
  "sha2_schedule native num_constants block =
     fold (\<lambda>t w. w[t := (if t < 16 then big_endian_to_host native (block ! t)
                           else sigma1 (w ! (t - 2)) + w ! (t - 7) + sigma0 (w ! (t - 15)) + w ! (t - 16))])
          [0..<num_constants] (replicate num_constants 0)"

definition sha2_round :: "'a::len word list \<Rightarrow> 'a word list \<Rightarrow> nat \<Rightarrow> 'a word list \<Rightarrow> 'a word list" where
  "sha2_round constants w t v =
     (let t1 = v ! 7 + Sigma1 (v ! 4) + choose_word (v ! 4) (v ! 5) (v ! 6) + constants ! t + w ! t;
          t2 = Sigma0 (v ! 0) + majority (v ! 0) (v ! 1) (v ! 2);
          v = v[7 := v ! 6];
          v = v[6 := v ! 5];
          v = v[5 := v ! 4];
          v = v[4 := v ! 3 + t1];
          v = v[3 := v ! 2];
          v = v[2 := v ! 1];
          v = v[1 := v ! 0]
      in v[0 := t1 + t2])"

definition sha2_block :: "endian \<Rightarrow> 'a::len word list \<Rightarrow> 'a word list \<Rightarrow> 'a word list \<Rightarrow> 'a word list" where
  "sha2_block native constants block state =
     (let w = sha2_schedule native (length constants) block;
          v = fold (sha2_round constants w) [0..<length w] state
      in map2 (+) v state)"

text \<open>The state after all blocks of the padded message.\<close>

definition sha2_state :: "endian \<Rightarrow> byte list \<Rightarrow> 'a::len word list \<Rightarrow> 'a word list \<Rightarrow> 'a word list option" where
  "sha2_state native message initialization_vector constants =
     (case preprocess_message message of None \<Rightarrow> None
      | Some blocks \<Rightarrow> Some (fold (sha2_block native constants) blocks initialization_vector))"

text \<open>
  The return type has \<open>bytes<digest_bits>\<close> bytes: a digest longer than the state does not
  compile.
\<close>

definition sha2 :: "nat \<Rightarrow> endian \<Rightarrow> byte list \<Rightarrow> 'a::len word list \<Rightarrow> 'a word list \<Rightarrow> byte list option" where
  "sha2 digest_bits native message initialization_vector constants =
     (case sha2_state native message initialization_vector constants of None \<Rightarrow> None
      | Some state \<Rightarrow>
          let full_digest = to_bytes big state;
              sizeof_state = 8 * (LENGTH('a) div bits_per_byte)
          in if bytes digest_bits < sizeof_state then Some (take (bytes digest_bits) full_digest)
             else if bytes digest_bits = sizeof_state then Some full_digest
             else None)"

subsection \<open>The SHA-512/t initialization vector\<close>

text \<open>\<open>std::byte{n}\<close> with a constant \<open>n\<close> of type \<open>size_t\<close> is ill-formed unless \<open>n\<close> fits a byte.\<close>

definition byte_init :: "nat \<Rightarrow> byte option" where
  "byte_init n = (if n < 256 then Some (word_of_nat n) else None)"

definition sha512_t_digits :: "nat \<Rightarrow> byte list option" where
  "sha512_t_digits hash_bits =
     (if hash_bits < 10 then those [byte_init (size_t (hash_bits + of_char CHR ''0''))]
      else if hash_bits < 100
      then those [byte_init (size_t (hash_bits div 10 + of_char CHR ''0'')),
                  byte_init (size_t (hash_bits mod 10 + of_char CHR ''0''))]
      else those [byte_init (size_t (hash_bits div 100 + of_char CHR ''0'')),
                  byte_init (size_t (hash_bits mod 100 div 10 + of_char CHR ''0'')),
                  byte_init (size_t (hash_bits mod 10 + of_char CHR ''0''))])"

definition sha512_t_prefix :: "byte list" where
  "sha512_t_prefix = map of_char ''SHA-512/''"

definition intermediate_iv :: "64 word list option" where
  "intermediate_iv = map_option (map (\<lambda>entry. entry XOR 0xa5a5a5a5a5a5a5a5)) sha512_initialization_vector"

text \<open>
  The requires-clause of the variable template is \<open>hash_bits != 0 && hash_bits != 384\<close>.  The
  hash result is read back into eight words, eight bytes each, least significant byte first,
  and each word is then converted with \<open>big_endian_to_host\<close>.
\<close>

definition sha512_t_initialization_vector :: "endian \<Rightarrow> nat \<Rightarrow> 64 word list option" where
  "sha512_t_initialization_vector native hash_bits =
     (if hash_bits \<noteq> 0 \<and> hash_bits \<noteq> 384 then
        (case intermediate_iv of None \<Rightarrow> None | Some iiv \<Rightarrow>
        (case sha2_64_bit_constants of None \<Rightarrow> None | Some constants \<Rightarrow>
        (case sha512_t_digits hash_bits of None \<Rightarrow> None | Some t \<Rightarrow>
        (case sha2 512 native (copy_into t (length sha512_t_prefix)
                                 (copy_into sha512_t_prefix 0 (replicate (8 + length t) 0)))
                iiv constants of None \<Rightarrow> None
         | Some hash_result \<Rightarrow>
             Some (map (\<lambda>iv_index.
                          big_endian_to_host native
                            (fold (\<lambda>byte_index iv_value.
                                     iv_value OR push_bit (byte_index * bits_per_byte)
                                       (ucast (hash_result ! (iv_index * 8 + byte_index))))
                                  [0..<bits_per_byte] 0))
                       [0..<8])))))
      else None)"

section \<open>Public interface\<close>

definition sha1 :: "endian \<Rightarrow> byte list \<Rightarrow> error + byte list" where
  "sha1 native message = of_option (detail_sha1 native message)"

definition sha224 :: "endian \<Rightarrow> byte list \<Rightarrow> error + byte list" where
  "sha224 native message =
     of_option (case sha224_initialization_vector of None \<Rightarrow> None | Some iv \<Rightarrow>
               (case sha2_32_bit_constants of None \<Rightarrow> None | Some constants \<Rightarrow>
                  sha2 224 native message iv constants))"

definition sha256 :: "endian \<Rightarrow> byte list \<Rightarrow> error + byte list" where
  "sha256 native message =
     of_option (case sha256_initialization_vector of None \<Rightarrow> None | Some iv \<Rightarrow>
               (case sha2_32_bit_constants of None \<Rightarrow> None | Some constants \<Rightarrow>
                  sha2 256 native message iv constants))"

definition sha384 :: "endian \<Rightarrow> byte list \<Rightarrow> error + byte list" where
  "sha384 native message =
     of_option (case sha384_initialization_vector of None \<Rightarrow> None | Some iv \<Rightarrow>
               (case sha2_64_bit_constants of None \<Rightarrow> None | Some constants \<Rightarrow>
                  sha2 384 native message iv constants))"

definition sha512 :: "endian \<Rightarrow> byte list \<Rightarrow> error + byte list" where
  "sha512 native message =
     of_option (case sha512_initialization_vector of None \<Rightarrow> None | Some iv \<Rightarrow>
               (case sha2_64_bit_constants of None \<Rightarrow> None | Some constants \<Rightarrow>
                  sha2 512 native message iv constants))"

text \<open>
  \<open>sha512_t\<close> carries the requires-clause
  \<open>hash_bits != 0 && hash_bits != 384 && hash_bits < 512\<close>: a call that violates it is
  rejected before anything is evaluated.
\<close>

definition sha512_t :: "endian \<Rightarrow> nat \<Rightarrow> byte list \<Rightarrow> error + byte list" where
  "sha512_t native hash_bits message =
     (if hash_bits \<noteq> 0 \<and> hash_bits \<noteq> 384 \<and> hash_bits < 512 then
        of_option (case sha512_t_initialization_vector native hash_bits of None \<Rightarrow> None | Some iv \<Rightarrow>
                  (case sha2_64_bit_constants of None \<Rightarrow> None | Some constants \<Rightarrow>
                     sha2 hash_bits native message iv constants))
      else Inl constraints_not_satisfied)"

section \<open>Test helpers\<close>

text \<open>The literal operators \<open>_hex_bytes\<close> and \<open>_bytes\<close> of \<open>ctsha_tests.hpp\<close>.\<close>

definition hex2val :: "char \<Rightarrow> nat option" where
  "hex2val c =
     (let n = of_char c :: nat in
      if of_char CHR ''0'' \<le> n \<and> n \<le> of_char CHR ''9'' then Some (n - of_char CHR ''0'')
      else if of_char CHR ''a'' \<le> n \<and> n \<le> of_char CHR ''f'' then Some (n - of_char CHR ''a'' + 10)
      else if of_char CHR ''A'' \<le> n \<and> n \<le> of_char CHR ''F'' then Some (n - of_char CHR ''A'' + 10)
      else None)"

fun hex_pairs :: "string \<Rightarrow> byte list option" where
  "hex_pairs (c1 # c2 # cs) =
     (case hex2val c1 of None \<Rightarrow> None | Some h \<Rightarrow>
     (case hex2val c2 of None \<Rightarrow> None | Some l \<Rightarrow>
     (case hex_pairs cs of None \<Rightarrow> None | Some bs \<Rightarrow> Some (word_of_nat (push_bit 4 h OR l) # bs))))"
| "hex_pairs cs = Some []"

definition hex_bytes :: "string \<Rightarrow> error + byte list" where
  "hex_bytes chars =
     (if 2 \<le> length chars \<and> length chars mod 2 = 0
      then (case hex_pairs chars of None \<Rightarrow> Inl invalid_argument | Some bs \<Rightarrow> Inr bs)
      else Inl constraints_not_satisfied)"

definition string_bytes :: "string \<Rightarrow> byte list" where
  "string_bytes chars = map of_char chars"


section \<open>Tables of expected values\<close>

text \<open>
  The first eighty primes, and a loop that collects \<open>next_prime\<close> results one after the other;
  both serve to evaluate \<open>prime\<close> at every index without starting from 2 each time.
\<close>

definition primes_table :: "64 word list" where
  "primes_table =
    [2, 3, 5, 7, 11, 13, 17, 19, 23, 29, 31, 37, 41, 43, 47, 53,
     59, 61, 67, 71, 73, 79, 83, 89, 97, 101, 103, 107, 109, 113, 127, 131,
     137, 139, 149, 151, 157, 163, 167, 173, 179, 181, 191, 193, 197, 199, 211, 223,
     227, 229, 233, 239, 241, 251, 257, 263, 269, 271, 277, 281, 283, 293, 307, 311,
     313, 317, 331, 337, 347, 349, 353, 359, 367, 373, 379, 383, 389, 397, 401, 409]"

fun primes_from :: "nat \<Rightarrow> 64 word \<Rightarrow> 64 word list option" where
  "primes_from 0 v = Some []"
| "primes_from (Suc n) v =
     (if n = 0 then Some [v]
      else case next_prime (v + 1) of None \<Rightarrow> None | Some p \<Rightarrow> map_option ((#) v) (primes_from n p))"

text \<open>The tables of FIPS 180-4, as the static assertions of \<open>ctsha_tests.cpp\<close> list them.\<close>

definition fips_sha1_constants :: "32 word list" where
  "fips_sha1_constants =
     replicate 20 0x5a827999 @ replicate 20 0x6ed9eba1 @ replicate 20 0x8f1bbcdc @ replicate 20 0xca62c1d6"

definition fips_sha2_32_bit_constants :: "32 word list" where
  "fips_sha2_32_bit_constants =
    [0x428a2f98, 0x71374491, 0xb5c0fbcf, 0xe9b5dba5, 0x3956c25b, 0x59f111f1,
     0x923f82a4, 0xab1c5ed5, 0xd807aa98, 0x12835b01, 0x243185be, 0x550c7dc3,
     0x72be5d74, 0x80deb1fe, 0x9bdc06a7, 0xc19bf174, 0xe49b69c1, 0xefbe4786,
     0x0fc19dc6, 0x240ca1cc, 0x2de92c6f, 0x4a7484aa, 0x5cb0a9dc, 0x76f988da,
     0x983e5152, 0xa831c66d, 0xb00327c8, 0xbf597fc7, 0xc6e00bf3, 0xd5a79147,
     0x06ca6351, 0x14292967, 0x27b70a85, 0x2e1b2138, 0x4d2c6dfc, 0x53380d13,
     0x650a7354, 0x766a0abb, 0x81c2c92e, 0x92722c85, 0xa2bfe8a1, 0xa81a664b,
     0xc24b8b70, 0xc76c51a3, 0xd192e819, 0xd6990624, 0xf40e3585, 0x106aa070,
     0x19a4c116, 0x1e376c08, 0x2748774c, 0x34b0bcb5, 0x391c0cb3, 0x4ed8aa4a,
     0x5b9cca4f, 0x682e6ff3, 0x748f82ee, 0x78a5636f, 0x84c87814, 0x8cc70208,
     0x90befffa, 0xa4506ceb, 0xbef9a3f7, 0xc67178f2]"

definition fips_sha2_64_bit_constants :: "64 word list" where
  "fips_sha2_64_bit_constants =
    [0x428a2f98d728ae22, 0x7137449123ef65cd, 0xb5c0fbcfec4d3b2f, 0xe9b5dba58189dbbc,
     0x3956c25bf348b538, 0x59f111f1b605d019, 0x923f82a4af194f9b, 0xab1c5ed5da6d8118,
     0xd807aa98a3030242, 0x12835b0145706fbe, 0x243185be4ee4b28c, 0x550c7dc3d5ffb4e2,
     0x72be5d74f27b896f, 0x80deb1fe3b1696b1, 0x9bdc06a725c71235, 0xc19bf174cf692694,
     0xe49b69c19ef14ad2, 0xefbe4786384f25e3, 0x0fc19dc68b8cd5b5, 0x240ca1cc77ac9c65,
     0x2de92c6f592b0275, 0x4a7484aa6ea6e483, 0x5cb0a9dcbd41fbd4, 0x76f988da831153b5,
     0x983e5152ee66dfab, 0xa831c66d2db43210, 0xb00327c898fb213f, 0xbf597fc7beef0ee4,
     0xc6e00bf33da88fc2, 0xd5a79147930aa725, 0x06ca6351e003826f, 0x142929670a0e6e70,
     0x27b70a8546d22ffc, 0x2e1b21385c26c926, 0x4d2c6dfc5ac42aed, 0x53380d139d95b3df,
     0x650a73548baf63de, 0x766a0abb3c77b2a8, 0x81c2c92e47edaee6, 0x92722c851482353b,
     0xa2bfe8a14cf10364, 0xa81a664bbc423001, 0xc24b8b70d0f89791, 0xc76c51a30654be30,
     0xd192e819d6ef5218, 0xd69906245565a910, 0xf40e35855771202a, 0x106aa07032bbd1b8,
     0x19a4c116b8d2d0c8, 0x1e376c085141ab53, 0x2748774cdf8eeb99, 0x34b0bcb5e19b48a8,
     0x391c0cb3c5c95a63, 0x4ed8aa4ae3418acb, 0x5b9cca4f7763e373, 0x682e6ff3d6b2b8a3,
     0x748f82ee5defb2fc, 0x78a5636f43172f60, 0x84c87814a1f0ab72, 0x8cc702081a6439ec,
     0x90befffa23631e28, 0xa4506cebde82bde9, 0xbef9a3f7b2c67915, 0xc67178f2e372532b,
     0xca273eceea26619c, 0xd186b8c721c0c207, 0xeada7dd6cde0eb1e, 0xf57d4f7fee6ed178,
     0x06f067aa72176fba, 0x0a637dc5a2c898a6, 0x113f9804bef90dae, 0x1b710b35131c471b,
     0x28db77f523047d84, 0x32caab7b40c72493, 0x3c9ebe0a15c9bebc, 0x431d67c49c100d4c,
     0x4cc5d4becb3e42b6, 0x597f299cfc657e2a, 0x5fcb6fab3ad6faec, 0x6c44198c4a475817]"

definition fips_sha224_initialization_vector :: "32 word list" where
  "fips_sha224_initialization_vector =
    [0xc1059ed8, 0x367cd507, 0x3070dd17, 0xf70e5939,
     0xffc00b31, 0x68581511, 0x64f98fa7, 0xbefa4fa4]"

definition fips_sha256_initialization_vector :: "32 word list" where
  "fips_sha256_initialization_vector =
    [0x6a09e667, 0xbb67ae85, 0x3c6ef372, 0xa54ff53a,
     0x510e527f, 0x9b05688c, 0x1f83d9ab, 0x5be0cd19]"

definition fips_sha384_initialization_vector :: "64 word list" where
  "fips_sha384_initialization_vector =
    [0xcbbb9d5dc1059ed8, 0x629a292a367cd507, 0x9159015a3070dd17, 0x152fecd8f70e5939,
     0x67332667ffc00b31, 0x8eb44a8768581511, 0xdb0c2e0d64f98fa7, 0x47b5481dbefa4fa4]"

definition fips_sha512_initialization_vector :: "64 word list" where
  "fips_sha512_initialization_vector =
    [0x6a09e667f3bcc908, 0xbb67ae8584caa73b, 0x3c6ef372fe94f82b, 0xa54ff53a5f1d36f1,
     0x510e527fade682d1, 0x9b05688c2b3e6c1f, 0x1f83d9abfb41bd6b, 0x5be0cd19137e2179]"


section \<open>Evaluating the floating-point model\<close>

subsection \<open>Code equations on binary numerals\<close>

lemma bitlen_numeral:
  "bitlen 0 = 0"
  "bitlen (- numeral k) = 0"
  "bitlen 1 = Suc 0"
  "bitlen (numeral (num.Bit0 k)) = Suc (bitlen (numeral k))"
  "bitlen (numeral (num.Bit1 k)) = Suc (bitlen (numeral k))"
proof -
  show z: "bitlen 0 = 0" by (subst bitlen.simps) simp
  show "bitlen (- numeral k) = 0" by (subst bitlen.simps) simp
  show "bitlen 1 = Suc 0" by (subst bitlen.simps) (simp add: z)
  show "bitlen (numeral (num.Bit0 k)) = Suc (bitlen (numeral k))" by (subst bitlen.simps) simp
  show "bitlen (numeral (num.Bit1 k)) = Suc (bitlen (numeral k))" by (subst bitlen.simps) simp
qed

lemma bitlen_code [code]:
  "bitlen 0 = 0"
  "bitlen (Int.Neg k) = 0"
  "bitlen (Int.Pos num.One) = Suc 0"
  "bitlen (Int.Pos (num.Bit0 k)) = Suc (bitlen (Int.Pos k))"
  "bitlen (Int.Pos (num.Bit1 k)) = Suc (bitlen (Int.Pos k))"
  by (simp_all add: Int.Pos_def Int.Neg_def bitlen_numeral)

lemma ctz_numeral:
  "ctz 0 = 0"
  "ctz 1 = 0"
  "ctz (numeral (num.Bit0 k)) = Suc (ctz (numeral k))"
  "ctz (numeral (num.Bit1 k)) = 0"
proof -
  show "ctz 0 = 0" by (subst ctz.simps) simp
  show "ctz 1 = 0" by (subst ctz.simps) simp
  show "ctz (numeral (num.Bit0 k)) = Suc (ctz (numeral k))" by (subst ctz.simps) simp
  show "ctz (numeral (num.Bit1 k)) = 0" by (subst ctz.simps) simp
qed

lemma ctz_code [code]:
  "ctz 0 = 0"
  "ctz (Int.Pos num.One) = 0"
  "ctz (Int.Pos (num.Bit0 k)) = Suc (ctz (Int.Pos k))"
  "ctz (Int.Pos (num.Bit1 k)) = 0"
  by (simp_all add: Int.Pos_def ctz_numeral)

lemma bitlen_pos: "0 < n \<Longrightarrow> 2 ^ (bitlen n - 1) \<le> n \<and> n < 2 ^ bitlen n"
proof (induction n rule: bitlen.induct)
  case (1 n)
  show ?case
  proof (cases "n = 1")
    case True
    then show ?thesis by (simp add: bitlen_numeral)
  next
    case False
    with "1.prems" have h: "0 < n div 2" by simp
    with "1.IH" "1.prems" have ih: "2 ^ (bitlen (n div 2) - 1) \<le> n div 2" "n div 2 < 2 ^ bitlen (n div 2)"
      by simp_all
    from h have bl: "bitlen (n div 2) > 0" by (simp add: bitlen.simps [of "n div 2"])
    have e: "bitlen n = Suc (bitlen (n div 2))" using "1.prems" by (simp add: bitlen.simps [of n])
    from bl obtain k where k: "bitlen (n div 2) = Suc k" by (cases "bitlen (n div 2)") auto
    from ih k have "2 * 2 ^ k \<le> 2 * (n div 2)" by simp
    then have lo: "2 ^ (bitlen n - 1) \<le> n" using e k by simp
    from ih have "n < 2 * 2 ^ bitlen (n div 2)" by linarith
    then show ?thesis using lo e by simp
  qed
qed


lemma bval_bounds: "0 \<le> bval r \<and> bval r < 2 ^ blen r"
  by (induction r) auto

lemma mod_even: "(2 * x) mod 2 ^ Suc m = 2 * (x mod 2 ^ m)" for x :: int
  by simp

lemma mod_odd: "(2 * x + 1) mod 2 ^ Suc m = 2 * (x mod 2 ^ m) + 1" for x :: int
  using pos_zmod_mult_2 [of "2 ^ m" x] by (simp add: add.commute)

lemma bits_of_correct: "bval (bits_of w n) = n mod 2 ^ w \<and> blen (bits_of w n) = w"
proof (induction w arbitrary: n)
  case 0
  then show ?case by simp
next
  case (Suc w)
  show ?case
  proof (cases "odd n")
    case True
    then obtain x where n: "n = 2 * x + 1" by (elim oddE)
    then have x: "n div 2 = x" by simp
    show ?thesis using Suc [of x] True by ((simp only: bits_of.simps if_True x bval.simps blen.simps n mod_odd); simp?)
  next
    case False
    then have "even n" by simp
    then obtain x where n: "n = 2 * x" by (elim evenE)
    then have x: "n div 2 = x" by simp
    show ?thesis using Suc [of x] False by ((simp only: bits_of.simps if_False x bval.simps blen.simps n mod_even); simp?)
  qed
qed

lemma int_cmp:
  "(2 * a + 1 \<le> 2 * b) = (a < b)"
  "(2 * a + 1 < 2 * b) = (a < b)"
  "(2 * a < 2 * b + 1) = (a \<le> b)"
  "(2 * a \<le> 2 * b + 1) = (a \<le> b)"
  "(2 * a = 2 * b + 1) = False"
  "(2 * a + 1 = 2 * b) = False"
  for a b :: int
  by presburger+

lemma bge_correct:
  "blen R = blen d \<Longrightarrow> bge acc R d = (if bval R = bval d then acc else bval d < bval R)"
proof (induction R arbitrary: d acc)
  case BE
  then show ?case by (cases d) auto
next
  case (B0 R)
  show ?case
  proof (cases d)
    case BE
    with B0.prems show ?thesis by simp
  next
    case (B0 d')
    with B0.prems B0.IH [of d' acc] show ?thesis by (auto simp: int_cmp)
  next
    case (B1 d')
    with B0.prems B0.IH [of d' False] show ?thesis by (auto simp: int_cmp)
  qed
next
  case (B1 R)
  show ?case
  proof (cases d)
    case BE
    with B1.prems show ?thesis by simp
  next
    case (B0 d')
    with B1.prems B1.IH [of d' True] show ?thesis by (auto simp: int_cmp)
  next
    case (B1 d')
    with B1.prems B1.IH [of d' acc] show ?thesis by (auto simp: int_cmp)
  qed
qed

lemma bnz_correct: "bnz R \<longleftrightarrow> bval R \<noteq> 0"
proof (induction R)
  case (B1 R)
  have "0 \<le> bval R" by (simp add: bval_bounds)
  then show ?case by simp
next
  case (B0 R)
  then show ?case by simp
qed simp

lemma blen_pos: "R \<noteq> BE \<Longrightarrow> blen R = Suc (blen R - 1)"
  by (cases R) auto

lemma bdrop_step:
  "R \<noteq> BE \<Longrightarrow> bdrop (B0 R) = B0 (bdrop R)"
  "R \<noteq> BE \<Longrightarrow> bdrop (B1 R) = B1 (bdrop R)"
  by (cases R; simp)+

lemma bdrop_correct: "bval (bdrop R) = bval R mod 2 ^ (blen R - 1) \<and> blen (bdrop R) = blen R - 1"
proof (induction R)
  case BE
  then show ?case by simp
next
  case (B0 R)
  show ?case
  proof (cases "R = BE")
    case True
    then show ?thesis by simp
  next
    case False
    from blen_pos [OF False] obtain m where m: "blen R = Suc m" "blen R - 1 = m" by simp
    show ?thesis using B0 by ((simp only: bdrop_step(1) [OF False] bval.simps blen.simps diff_Suc_1 m mod_even); simp?)
  qed
next
  case (B1 R)
  show ?case
  proof (cases "R = BE")
    case True
    then show ?thesis by simp
  next
    case False
    from blen_pos [OF False] obtain m where m: "blen R = Suc m" "blen R - 1 = m" by simp
    show ?thesis using B1 by ((simp only: bdrop_step(2) [OF False] bval.simps blen.simps diff_Suc_1 m mod_odd); simp?)
  qed
qed

lemma bsub_step:
  "R \<noteq> BE \<Longrightarrow> bsub (B0 R) (B0 d) = B0 (bsub R d)"
  "R \<noteq> BE \<Longrightarrow> bsub (B1 R) (B0 d) = B1 (bsub R d)"
  "R \<noteq> BE \<Longrightarrow> bsub (B1 R) (B1 d) = B0 (bsub R d)"
  "R \<noteq> BE \<Longrightarrow> bsub (B0 R) (B1 d) = B1 (bsubc R d)"
  "R \<noteq> BE \<Longrightarrow> bsubc (B0 R) (B0 d) = B1 (bsubc R d)"
  "R \<noteq> BE \<Longrightarrow> bsubc (B1 R) (B0 d) = B0 (bsub R d)"
  "R \<noteq> BE \<Longrightarrow> bsubc (B1 R) (B1 d) = B1 (bsubc R d)"
  "R \<noteq> BE \<Longrightarrow> bsubc (B0 R) (B1 d) = B0 (bsubc R d)"
  by (cases R; simp)+

lemma sub_shapes:
  "2 * a - 2 * b = 2 * (a - b)"
  "2 * a + 1 - 2 * b = 2 * (a - b) + 1"
  "2 * a + 1 - (2 * b + 1) = 2 * (a - b)"
  "2 * a - (2 * b + 1) = 2 * (a - b - 1) + 1"
  "2 * a + 1 - 1 = 2 * a"
  "2 * a - 1 = 2 * (a - 1) + 1"
  for a b :: int
  by simp_all

lemma bsub_correct:
  "blen R = blen d \<Longrightarrow>
     (bval (bsub R d) = (bval R - bval d) mod 2 ^ (blen R - 1) \<and> blen (bsub R d) = blen R - 1) \<and>
     (bval (bsubc R d) = (bval R - bval d - 1) mod 2 ^ (blen R - 1) \<and> blen (bsubc R d) = blen R - 1)"
proof (induction R arbitrary: d)
  case BE
  then show ?case by simp
next
  case (B0 R)
  show ?case
  proof (cases "R = BE")
    case True
    then show ?thesis by simp
  next
    case False
    from blen_pos [OF False] obtain m where m: "blen R = Suc m" "blen R - 1 = m" by simp
    show ?thesis
    proof (cases d)
      case BE
      with B0.prems show ?thesis by simp
    next
      case d: (B0 d')
      with B0.prems have "blen R = blen d'" by simp
      from B0.IH [OF this] show ?thesis
        by ((simp only: d bsub_step [OF False] bval.simps blen.simps diff_Suc_1 m sub_shapes mod_even mod_odd); simp?)
    next
      case d: (B1 d')
      with B0.prems have "blen R = blen d'" by simp
      from B0.IH [OF this] show ?thesis
        by ((simp only: d bsub_step [OF False] bval.simps blen.simps diff_Suc_1 m sub_shapes mod_even mod_odd); simp?)
    qed
  qed
next
  case (B1 R)
  show ?case
  proof (cases "R = BE")
    case True
    then show ?thesis by simp
  next
    case False
    from blen_pos [OF False] obtain m where m: "blen R = Suc m" "blen R - 1 = m" by simp
    show ?thesis
    proof (cases d)
      case BE
      with B1.prems show ?thesis by simp
    next
      case d: (B0 d')
      with B1.prems have "blen R = blen d'" by simp
      from B1.IH [OF this] show ?thesis
        by ((simp only: d bsub_step [OF False] bval.simps blen.simps diff_Suc_1 m sub_shapes mod_even mod_odd); simp?)
    next
      case d: (B1 d')
      with B1.prems have "blen R = blen d'" by simp
      from B1.IH [OF this] show ?thesis
        by ((simp only: d bsub_step [OF False] bval.simps blen.simps diff_Suc_1 m sub_shapes mod_even mod_odd); simp?)
    qed
  qed
qed


lemma feed_append: "feed n (xs @ ys) = feed (feed n xs) ys"
  by (induction xs arbitrary: n) auto

lemma feed_zeros: "feed n (replicate z False) = n * 2 ^ z"
  by (induction z arbitrary: n) auto

lemma feed_low_bits_rev: "feed n (low_bits_rev L a acc) = feed (n * 2 ^ L + a mod 2 ^ L) acc"
proof (induction L arbitrary: a acc)
  case 0
  then show ?case by simp
next
  case (Suc L)
  have "a mod (2 * 2 ^ L) = 2 * (a div 2 mod 2 ^ L) + a mod 2"
    by (rule zmod_zmult2_eq) simp
  moreover have "a mod 2 = (if odd a then 1 else 0)"
    by (simp add: odd_iff_mod_2_eq_one)
  ultimately show ?case
    using Suc [of "a div 2" "odd a # acc"] by (simp add: algebra_simps)
qed

lemma qstep_ge:
  fixes D R q :: int
  assumes "0 < D" "D \<le> R" "R < 2 * D"
  shows "(2 * D * q + R) div D = 2 * q + 1" "(2 * D * q + R) mod D = R - D"
proof -
  have e: "2 * D * q + R = D * (2 * q + 1) + (R - D)" by (simp add: algebra_simps)
  show "(2 * D * q + R) div D = 2 * q + 1"
    by (rule int_div_pos_eq [OF e]) (use assms in auto)
  show "(2 * D * q + R) mod D = R - D"
    by (rule int_mod_pos_eq [OF e]) (use assms in auto)
qed

lemma qstep_lt:
  fixes D R q :: int
  assumes "0 \<le> R" "R < D"
  shows "(2 * D * q + R) div D = 2 * q" "(2 * D * q + R) mod D = R"
proof -
  have e: "2 * D * q + R = D * (2 * q) + R" by (simp add: algebra_simps)
  show "(2 * D * q + R) div D = 2 * q"
    by (rule int_div_pos_eq [OF e]) (use assms in auto)
  show "(2 * D * q + R) mod D = R"
    by (rule int_mod_pos_eq [OF e]) (use assms in auto)
qed

lemma qloop_correct:
  assumes d: "0 < bval d" "bval d < 2 ^ W" "blen d = Suc W"
  shows "blen R = Suc W \<Longrightarrow> bval R < 2 * bval d \<Longrightarrow>
         qloop bs R d q = (let n = feed (2 * bval d * q + bval R) bs in (n div bval d, n mod bval d \<noteq> 0))"
proof (induction bs arbitrary: R q)
  case Nil
  have len: "blen R = blen d" using Nil d by simp
  have R0: "0 \<le> bval R" by (simp add: bval_bounds)
  show ?case
  proof (cases "bval d \<le> bval R")
    case True
    then have ge: "bge True R d" by (auto simp: bge_correct [OF len])
    have "bval (bsub R d) = (bval R - bval d) mod 2 ^ W"
      using bsub_correct [OF len] Nil by simp
    also have "\<dots> = bval R - bval d"
      using True Nil d by (intro mod_pos_pos_trivial) auto
    finally have s: "bval (bsub R d) = bval R - bval d" .
    show ?thesis
      using ge s qstep_ge [OF d(1) True Nil(2), of q] by (simp add: bnz_correct)
  next
    case False
    then have ge: "\<not> bge True R d" by (auto simp: bge_correct [OF len])
    show ?thesis
      using ge qstep_lt [OF R0, of "bval d" q] False by (simp add: bnz_correct)
  qed
next
  case (Cons b bs)
  have len: "blen R = blen d" using Cons d by simp
  have R0: "0 \<le> bval R" by (simp add: bval_bounds)
  show ?case
  proof (cases "bval d \<le> bval R")
    case True
    then have ge: "bge True R d" by (auto simp: bge_correct [OF len])
    have "bval (bsub R d) = (bval R - bval d) mod 2 ^ W"
      using bsub_correct [OF len] Cons.prems by simp
    also have "\<dots> = bval R - bval d"
      using True Cons.prems d by (intro mod_pos_pos_trivial) auto
    finally have s: "bval (bsub R d) = bval R - bval d" .
    have l: "blen (bsub R d) = W" using bsub_correct [OF len] Cons.prems by simp
    let ?R' = "if b then B1 (bsub R d) else B0 (bsub R d)"
    have 1: "blen ?R' = Suc W" using l by simp
    have 2: "bval ?R' < 2 * bval d" using s Cons.prems by auto
    have 3: "2 * bval d * (2 * q + 1) + bval ?R' = 2 * (2 * bval d * q + bval R) + (if b then 1 else 0)"
      using s by (simp add: algebra_simps)
    show ?thesis
      using ge Cons.IH [OF 1 2, of "2 * q + 1"] by (simp only: qloop.simps if_True 3 feed.simps)
  next
    case False
    then have ge: "\<not> bge True R d" by (auto simp: bge_correct [OF len])
    have "bval (bdrop R) = bval R mod 2 ^ W"
      using bdrop_correct [of R] Cons.prems by simp
    also have "\<dots> = bval R"
      using False R0 d by (intro mod_pos_pos_trivial) auto
    finally have s: "bval (bdrop R) = bval R" .
    have l: "blen (bdrop R) = W" using bdrop_correct [of R] Cons.prems by simp
    let ?R' = "if b then B1 (bdrop R) else B0 (bdrop R)"
    have 1: "blen ?R' = Suc W" using l by simp
    have 2: "bval ?R' < 2 * bval d" using s False by auto
    have 3: "2 * bval d * (2 * q) + bval ?R' = 2 * (2 * bval d * q + bval R) + (if b then 1 else 0)"
      using s by (simp add: algebra_simps)
    show ?thesis
      using ge Cons.IH [OF 1 2, of "2 * q"] by (simp only: qloop.simps if_False 3 feed.simps)
  qed
qed

lemma scaled_quotient_fast:
  assumes a: "0 \<le> a" and d: "0 < d"
  shows "scaled_quotient a d s =
     (let W = bitlen d; t = (bitlen a + s) - W;
          n0 = (if s \<le> t then drop_bit (t - s) a else push_bit (s - t) a)
      in qloop (low_bits_rev (t - s) a (replicate (min s t) False)) (bits_of (Suc W) n0) (bits_of (Suc W) d) 0)"
proof -
  define W where "W = bitlen d"
  define t where "t = (bitlen a + s) - W"
  define n0 where "n0 = (if s \<le> t then drop_bit (t - s) a else push_bit (s - t) a)"
  have dW: "d < 2 ^ W" using bitlen_pos [OF d] by (simp add: W_def)
  have a_lt: "a < 2 ^ bitlen a"
  proof (cases "a = 0")
    case True
    then show ?thesis by simp
  next
    case False
    with a show ?thesis using bitlen_pos [of a] by simp
  qed
  have n0_nonneg: "0 \<le> n0" using a by (simp add: n0_def)
  have n0_eq: "n0 = (a * 2 ^ s) div 2 ^ t"
  proof (cases "s \<le> t")
    case True
    then have "(2::int) ^ t = 2 ^ s * 2 ^ (t - s)" by (simp flip: power_add)
    then have "(a * 2 ^ s) div 2 ^ t = a div 2 ^ (t - s)" by simp
    with True show ?thesis by (simp add: n0_def drop_bit_eq_div)
  next
    case False
    then have "(2::int) ^ s = 2 ^ (s - t) * 2 ^ t" by (simp flip: power_add)
    then have "(a * 2 ^ s) div 2 ^ t = a * 2 ^ (s - t)" by simp
    with False show ?thesis by (simp add: n0_def push_bit_eq_mult)
  qed
  have "a * 2 ^ s < 2 ^ (bitlen a + s)" using a_lt by (simp add: power_add)
  also have "\<dots> \<le> 2 ^ (W + t)" by (intro power_increasing) (auto simp: t_def)
  finally have up: "a * 2 ^ s < 2 ^ W * 2 ^ t" by (simp add: power_add)
  have n0W: "n0 < 2 ^ W"
  proof -
    have "a * 2 ^ s = n0 * 2 ^ t + (a * 2 ^ s) mod 2 ^ t"
      unfolding n0_eq by (rule div_mult_mod_eq [symmetric])
    moreover have "0 \<le> (a * 2 ^ s) mod 2 ^ t" by simp
    ultimately have "n0 * 2 ^ t \<le> a * 2 ^ s" by linarith
    with up have "n0 * 2 ^ t < 2 ^ W * 2 ^ t" by linarith
    then show ?thesis by (simp add: mult_less_cancel_right)
  qed
  have feed_eq: "feed n0 (low_bits_rev (t - s) a (replicate (min s t) False)) = a * 2 ^ s"
  proof (cases "s \<le> t")
    case True
    then have m: "min s t = s" by simp
    have "n0 = a div 2 ^ (t - s)"
      using True by (simp add: n0_def drop_bit_eq_div)
    then have "n0 * 2 ^ (t - s) + a mod 2 ^ (t - s) = a"
      by (simp only: div_mult_mod_eq)
    then show ?thesis by (simp add: feed_low_bits_rev feed_zeros m)
  next
    case False
    then have m: "min s t = t" "t - s = 0" by simp_all
    have "(2::int) ^ (s - t) * 2 ^ t = 2 ^ s" using False by (simp flip: power_add)
    then have "n0 * 2 ^ t = a * 2 ^ s" using False by (simp add: n0_def push_bit_eq_mult mult.assoc)
    then show ?thesis by (simp add: feed_zeros m)
  qed
  have bd: "bval (bits_of (Suc W) d) = d" "blen (bits_of (Suc W) d) = Suc W"
    using d dW by (simp_all add: bits_of_correct)
  have bn: "bval (bits_of (Suc W) n0) = n0" "blen (bits_of (Suc W) n0) = Suc W"
    using n0_nonneg n0W by (simp_all add: bits_of_correct)
  have lt: "n0 < 2 * d"
  proof -
    have "2 ^ (W - 1) \<le> d" using bitlen_pos [OF d] by (simp add: W_def)
    moreover have "(2::int) ^ W \<le> 2 * 2 ^ (W - 1)" by (cases W) auto
    ultimately show ?thesis using n0W by linarith
  qed
  have main: "qloop (low_bits_rev (t - s) a (replicate (min s t) False)) (bits_of (Suc W) n0) (bits_of (Suc W) d) 0
      = ((a * 2 ^ s) div d, (a * 2 ^ s) mod d \<noteq> 0)"
    using qloop_correct [of "bits_of (Suc W) d" W "bits_of (Suc W) n0" _ 0] bd bn d dW lt feed_eq
    by (simp add: Let_def del: bits_of.simps)
  show ?thesis
    apply (simp only: Let_def)
    apply (fold W_def)
    apply (fold t_def)
    apply (fold n0_def)
    apply (simp only: scaled_quotient_def push_bit_eq_mult main)
    done
qed


lemma scaled_quotient_code [code]:
  "scaled_quotient a d s =
     (if 0 \<le> a \<and> 0 < d then
        let W = bitlen d; t = (bitlen a + s) - W;
            n0 = (if s \<le> t then drop_bit (t - s) a else push_bit (s - t) a)
        in qloop (low_bits_rev (t - s) a (replicate (min s t) False)) (bits_of (Suc W) n0) (bits_of (Suc W) d) 0
      else (push_bit s a div d, push_bit s a mod d \<noteq> 0))"
  using scaled_quotient_fast [of a d s] by (simp add: scaled_quotient_def)

lemma bits_of_code [code]:
  "bits_of 0 n = BE"
  "bits_of (Suc w) 0 = B0 (bits_of w 0)"
  "bits_of (Suc w) (Int.Pos num.One) = B1 (bits_of w 0)"
  "bits_of (Suc w) (Int.Pos (num.Bit0 k)) = B0 (bits_of w (Int.Pos k))"
  "bits_of (Suc w) (Int.Pos (num.Bit1 k)) = B1 (bits_of w (Int.Pos k))"
  by (simp_all add: Int.Pos_def)

lemma low_bits_rev_code [code]:
  "low_bits_rev 0 n acc = acc"
  "low_bits_rev (Suc w) 0 acc = low_bits_rev w 0 (False # acc)"
  "low_bits_rev (Suc w) (Int.Pos num.One) acc = low_bits_rev w 0 (True # acc)"
  "low_bits_rev (Suc w) (Int.Pos (num.Bit0 k)) acc = low_bits_rev w (Int.Pos k) (False # acc)"
  "low_bits_rev (Suc w) (Int.Pos (num.Bit1 k)) acc = low_bits_rev w (Int.Pos k) (True # acc)"
  by (simp_all add: Int.Pos_def)

declare float128_root.simps [code]


subsection \<open>The roots the tables need\<close>

text \<open>
  Each root is computed once, by evaluating the Newton-Raphson iteration in the kernel, and is
  then kept as a code equation, so that the tables below do not run the iteration again.
\<close>

lemma cube_roots_0:
  "float128_root_of 2 3 = Some (Float128 6541884109371051750980232093744677 (- 112))"
  "float128_root_of 3 3 = Some (Float128 7488587913130361555088143905287731 (- 112))"
  "float128_root_of 5 3 = Some (Float128 8878702736099531700041494947898519 (- 112))"
  "float128_root_of 7 3 = Some (Float128 9932506570902388107333812695762703 (- 112))"
  by code_simp+

lemma cube_roots_1:
  "float128_root_of 11 3 = Some (Float128 2886891209426764602373943555864197 (- 110))"
  "float128_root_of 13 3 = Some (Float128 6104413856208229524513045353991609 (- 111))"
  "float128_root_of 17 3 = Some (Float128 6675428662791595011679981764541619 (- 111))"
  "float128_root_of 19 3 = Some (Float128 6927566748984054488044799153426405 (- 111))"
  by code_simp+

lemma cube_roots_2:
  "float128_root_of 23 3 = Some (Float128 7383100792787105684454748316325523 (- 111))"
  "float128_root_of 29 3 = Some (Float128 7976190501216159259055459292729227 (- 111))"
  "float128_root_of 31 3 = Some (Float128 1019436305804619828006415625809035 (- 108))"
  "float128_root_of 37 3 = Some (Float128 8650942526121194775730884488254047 (- 111))"
  by code_simp+

lemma cube_roots_3:
  "float128_root_of 41 3 = Some (Float128 8952083772392441770071027594081179 (- 111))"
  "float128_root_of 43 3 = Some (Float128 9095341371571498126214216682050331 (- 111))"
  "float128_root_of 47 3 = Some (Float128 9369048159451350266723358452187231 (- 111))"
  "float128_root_of 53 3 = Some (Float128 9751875360700598909668377400161357 (- 111))"
  by code_simp+

lemma cube_roots_4:
  "float128_root_of 59 3 = Some (Float128 10106796530213037051293274058770739 (- 111))"
  "float128_root_of 61 3 = Some (Float128 10219730978726306015414738983767541 (- 111))"
  "float128_root_of 67 3 = Some (Float128 5272190860683049926812199024696851 (- 110))"
  "float128_root_of 71 3 = Some (Float128 5375088748023383995123590772048329 (- 110))"
  by code_simp+

lemma cube_roots_5:
  "float128_root_of 73 3 = Some (Float128 1356273111257608837157427663381055 (- 108))"
  "float128_root_of 79 3 = Some (Float128 5569829317430603369838539949339197 (- 110))"
  "float128_root_of 83 3 = Some (Float128 707786432628183102776918370883991 (- 107))"
  "float128_root_of 89 3 = Some (Float128 181111577609081042647864005584611 (- 105))"
  by code_simp+

lemma cube_roots_6:
  "float128_root_of 97 3 = Some (Float128 5964262752128445613162597881378897 (- 110))"
  "float128_root_of 101 3 = Some (Float128 6045143959384169893831925024112719 (- 110))"
  "float128_root_of 103 3 = Some (Float128 6084785380323131622749403398248135 (- 110))"
  "float128_root_of 107 3 = Some (Float128 1540638657560918373867907379241243 (- 108))"
  by code_simp+

lemma cube_roots_7:
  "float128_root_of 109 3 = Some (Float128 6200713835615198109547061198837539 (- 110))"
  "float128_root_of 113 3 = Some (Float128 6275654186177885032778026630960777 (- 110))"
  "float128_root_of 127 3 = Some (Float128 407800212142512001478754418480765 (- 106))"
  "float128_root_of 131 3 = Some (Float128 6592598413215627090428528139396443 (- 110))"
  by code_simp+

lemma cube_roots_8:
  "float128_root_of 137 3 = Some (Float128 1672937517308021175804278341316115 (- 108))"
  "float128_root_of 139 3 = Some (Float128 6724156143992585827265148625233943 (- 110))"
  "float128_root_of 149 3 = Some (Float128 860210934695311034509862729621147 (- 107))"
  "float128_root_of 151 3 = Some (Float128 1728085319618557306541678659849669 (- 108))"
  by code_simp+

lemma cube_roots_9:
  "float128_root_of 157 3 = Some (Float128 7002708909313410529673789474615751 (- 110))"
  "float128_root_of 163 3 = Some (Float128 7090802533084080944770521671472223 (- 110))"
  "float128_root_of 167 3 = Some (Float128 446771057148596956294935097513197 (- 106))"
  "float128_root_of 173 3 = Some (Float128 56507347428824850681773820376647 (- 103))"
  by code_simp+

lemma cube_roots_10:
  "float128_root_of 179 3 = Some (Float128 1828902451439288407026218132912523 (- 108))"
  "float128_root_of 181 3 = Some (Float128 7342755174335613434488002410651849 (- 110))"
  "float128_root_of 191 3 = Some (Float128 7475564255693506734150761809752925 (- 110))"
  "float128_root_of 193 3 = Some (Float128 7501566427680740665387614199769343 (- 110))"
  by code_simp+

lemma cube_roots_11:
  "float128_root_of 197 3 = Some (Float128 7553036760831211252910168404988015 (- 110))"
  "float128_root_of 199 3 = Some (Float128 7578510939388735736417926356888795 (- 110))"
  "float128_root_of 211 3 = Some (Float128 7727879498536483162687062296323749 (- 110))"
  "float128_root_of 223 3 = Some (Float128 7871686885833687676753436622688923 (- 110))"
  by code_simp+

lemma cube_roots_12:
  "float128_root_of 227 3 = Some (Float128 7918473642007166181958251344364073 (- 110))"
  "float128_root_of 229 3 = Some (Float128 7941661105673247688381284887352937 (- 110))"
  "float128_root_of 233 3 = Some (Float128 7987634118775665780229608774562891 (- 110))"
  "float128_root_of 239 3 = Some (Float128 251738039142688905150628743266525 (- 105))"
  by code_simp+

lemma cube_roots_13:
  "float128_root_of 241 3 = Some (Float128 8078025204579842614924925788456597 (- 110))"
  "float128_root_of 251 3 = Some (Float128 8188243771595560918133281543208251 (- 110))"
  "float128_root_of 257 3 = Some (Float128 8252975657633605226593722631407329 (- 110))"
  "float128_root_of 263 3 = Some (Float128 8316707723270835810709815290051173 (- 110))"
  by code_simp+

lemma cube_roots_14:
  "float128_root_of 269 3 = Some (Float128 2094869425855707683485739907747585 (- 108))"
  "float128_root_of 271 3 = Some (Float128 8400193430996396092851335742184155 (- 110))"
  "float128_root_of 277 3 = Some (Float128 528858468977160541635070335121991 (- 106))"
  "float128_root_of 281 3 = Some (Float128 8502271382206648702510944389553461 (- 110))"
  by code_simp+

lemma cube_roots_15:
  "float128_root_of 283 3 = Some (Float128 1065299397065268347213551249641463 (- 107))"
  "float128_root_of 293 3 = Some (Float128 8621617072184596575774754737903981 (- 110))"
  "float128_root_of 307 3 = Some (Float128 8756804383468588927515233151389835 (- 110))"
  "float128_root_of 311 3 = Some (Float128 8794672116732855351722838217149093 (- 110))"
  by code_simp+

lemma cube_roots_16:
  "float128_root_of 313 3 = Some (Float128 275421384591404133100038787831263 (- 105))"
  "float128_root_of 317 3 = Some (Float128 8850869629531628847945564225011127 (- 110))"
  "float128_root_of 331 3 = Some (Float128 2244823480200009592714241567202939 (- 108))"
  "float128_root_of 337 3 = Some (Float128 141144139173411056653846501623331 (- 104))"
  by code_simp+

lemma cube_roots_17:
  "float128_root_of 347 3 = Some (Float128 9121704827345327475352317720943753 (- 110))"
  "float128_root_of 349 3 = Some (Float128 9139196154605640031091006209294019 (- 110))"
  "float128_root_of 353 3 = Some (Float128 9173979348675827607472720009936289 (- 110))"
  "float128_root_of 359 3 = Some (Float128 2306416207494057715097786294390605 (- 108))"
  by code_simp+

lemma cube_roots_18:
  "float128_root_of 367 3 = Some (Float128 36303478990770355772130539093141 (- 102))"
  "float128_root_of 373 3 = Some (Float128 2336015978105919910761211161218041 (- 108))"
  "float128_root_of 379 3 = Some (Float128 9393899862496040719451959111051821 (- 110))"
  "float128_root_of 383 3 = Some (Float128 9426832296135956626137622754706815 (- 110))"
  by code_simp+

lemma cube_roots_19:
  "float128_root_of 389 3 = Some (Float128 9475803732278601794952179959662483 (- 110))"
  "float128_root_of 397 3 = Some (Float128 9540321829944460684858510359424969 (- 110))"
  "float128_root_of 401 3 = Some (Float128 9572256199730341503566444025738045 (- 110))"
  "float128_root_of 409 3 = Some (Float128 602218338573668363225308781762817 (- 106))"
  by code_simp+

lemma square_roots_0:
  "float128_root_of 2 2 = Some (Float128 3671508318603584465714016303674699 (- 111))"
  "float128_root_of 3 2 = Some (Float128 1124165245870324101959562132590359 (- 109))"
  "float128_root_of 5 2 = Some (Float128 2902582183760620917491330517577335 (- 110))"
  "float128_root_of 7 2 = Some (Float128 6868763110452537628748015310201277 (- 111))"
  "float128_root_of 11 2 = Some (Float128 4305225119975268477811093096118539 (- 110))"
  "float128_root_of 13 2 = Some (Float128 2340136570109739067126260664499833 (- 109))"
  by code_simp+

lemma square_roots_1:
  "float128_root_of 17 2 = Some (Float128 669012137103182937064940646326609 (- 107))"
  "float128_root_of 19 2 = Some (Float128 707271790350531820795678896020369 (- 107))"
  "float128_root_of 23 2 = Some (Float128 778168154767466582116147421085587 (- 107))"
  "float128_root_of 29 2 = Some (Float128 6990343577694199046974258081478211 (- 110))"
  "float128_root_of 31 2 = Some (Float128 903421419068265282021282564819841 (- 107))"
  "float128_root_of 37 2 = Some (Float128 246746162322506291821721529938173 (- 105))"
  by code_simp+

lemma square_roots_2:
  "float128_root_of 41 2 = Some (Float128 2077932616426924623245909553858417 (- 108))"
  "float128_root_of 43 2 = Some (Float128 2128010465610533370341701819144257 (- 108))"
  "float128_root_of 47 2 = Some (Float128 4449574230607772555222570331818947 (- 109))"
  "float128_root_of 53 2 = Some (Float128 2362530731743722925447214357822203 (- 108))"
  "float128_root_of 10 2 = Some (Float128 2052435545088392652279101862458215 (- 109))"
  by code_simp+

lemmas float128_root_table [code] =
  cube_roots_0 [unfolded numeral_2_eq_2 numeral_3_eq_3]
  cube_roots_1 [unfolded numeral_2_eq_2 numeral_3_eq_3]
  cube_roots_2 [unfolded numeral_2_eq_2 numeral_3_eq_3]
  cube_roots_3 [unfolded numeral_2_eq_2 numeral_3_eq_3]
  cube_roots_4 [unfolded numeral_2_eq_2 numeral_3_eq_3]
  cube_roots_5 [unfolded numeral_2_eq_2 numeral_3_eq_3]
  cube_roots_6 [unfolded numeral_2_eq_2 numeral_3_eq_3]
  cube_roots_7 [unfolded numeral_2_eq_2 numeral_3_eq_3]
  cube_roots_8 [unfolded numeral_2_eq_2 numeral_3_eq_3]
  cube_roots_9 [unfolded numeral_2_eq_2 numeral_3_eq_3]
  cube_roots_10 [unfolded numeral_2_eq_2 numeral_3_eq_3]
  cube_roots_11 [unfolded numeral_2_eq_2 numeral_3_eq_3]
  cube_roots_12 [unfolded numeral_2_eq_2 numeral_3_eq_3]
  cube_roots_13 [unfolded numeral_2_eq_2 numeral_3_eq_3]
  cube_roots_14 [unfolded numeral_2_eq_2 numeral_3_eq_3]
  cube_roots_15 [unfolded numeral_2_eq_2 numeral_3_eq_3]
  cube_roots_16 [unfolded numeral_2_eq_2 numeral_3_eq_3]
  cube_roots_17 [unfolded numeral_2_eq_2 numeral_3_eq_3]
  cube_roots_18 [unfolded numeral_2_eq_2 numeral_3_eq_3]
  cube_roots_19 [unfolded numeral_2_eq_2 numeral_3_eq_3]
  square_roots_0 [unfolded numeral_2_eq_2 numeral_3_eq_3]
  square_roots_1 [unfolded numeral_2_eq_2 numeral_3_eq_3]
  square_roots_2 [unfolded numeral_2_eq_2 numeral_3_eq_3]

declare float128_root_of_def [code del]


subsection \<open>The primes\<close>

lemma primes_from_numeral:
  "primes_from (numeral k) v =
     (if pred_numeral k = 0 then Some [v]
      else case next_prime (v + 1) of None \<Rightarrow> None
           | Some p \<Rightarrow> map_option ((#) v) (primes_from (pred_numeral k) p))"
  by (simp add: numeral_eq_Suc)

lemma primes_from_table: "primes_from 80 2 = Some primes_table"
  by (simp add: primes_from_numeral primes_table_def is_prime.simps next_prime.simps)

lemma primes_from_prime:
  "primes_from n v = Some ps \<Longrightarrow> i < n \<Longrightarrow> prime i v = Some (ps ! i) \<and> length ps = n"
proof (induction n arbitrary: v ps i)
  case 0
  then show ?case by simp
next
  case (Suc n)
  show ?case
  proof (cases "n = 0")
    case True
    with Suc.prems show ?thesis by auto
  next
    case False
    with Suc.prems(1) obtain p ps' where p: "next_prime (v + 1) = Some p"
      and ps': "primes_from n p = Some ps'" and ps: "ps = v # ps'"
      by (auto split: option.splits)
    show ?thesis
    proof (cases i)
      case 0
      from False obtain j where "j < n" by auto
      from Suc.IH [OF ps' this] have "length ps' = n" by simp
      with 0 ps show ?thesis by simp
    next
      case (Suc j)
      with Suc.prems(2) have "j < n" by simp
      from Suc.IH [OF ps' this] show ?thesis using Suc p ps by simp
    qed
  qed
qed

lemma length_primes_table: "length primes_table = 80"
  by (simp add: primes_table_def)

lemma prime_table: "i < 80 \<Longrightarrow> prime i 2 = Some (primes_table ! i)"
  using primes_from_prime [OF primes_from_table] by simp

lemma generate_array_prime:
  assumes "n + k \<le> 80"
  shows "generate_array n (\<lambda>index. case prime (index + k) 2 of None \<Rightarrow> None | Some p \<Rightarrow> f p)
         = map f (take n (drop k primes_table))"
proof (rule nth_equalityI)
  show "length (generate_array n (\<lambda>index. case prime (index + k) 2 of None \<Rightarrow> None | Some p \<Rightarrow> f p))
        = length (map f (take n (drop k primes_table)))"
    using assms by (simp add: generate_array_def length_primes_table)
next
  fix i
  assume "i < length (generate_array n (\<lambda>index. case prime (index + k) 2 of None \<Rightarrow> None | Some p \<Rightarrow> f p))"
  then have i: "i < n" by (simp add: generate_array_def)
  with assms have "i + k < 80" by simp
  from prime_table [OF this] i assms
  show "generate_array n (\<lambda>index. case prime (index + k) 2 of None \<Rightarrow> None | Some p \<Rightarrow> f p) ! i
        = map f (take n (drop k primes_table)) ! i"
    by (simp add: generate_array_def length_primes_table add.commute)
qed

lemma generate_array_prime0:
  assumes "n \<le> 80"
  shows "generate_array n (\<lambda>index. case prime index 2 of None \<Rightarrow> None | Some p \<Rightarrow> f p)
         = map f (take n primes_table)"
  using generate_array_prime [of n 0 f] assms by simp

subsection \<open>The tables are those of FIPS 180-4\<close>

lemma sha1_constants_eval: "sha1_constants = Some fips_sha1_constants"
  unfolding sha1_constants_def by code_simp

lemma sha2_64_bit_constants_eval: "sha2_64_bit_constants = Some fips_sha2_64_bit_constants"
proof -
  have "sha2_64_bit_constants = those (map (\<lambda>p. sha2_constant p 3) (take 80 primes_table))"
    unfolding sha2_64_bit_constants_def by (simp add: generate_array_prime0)
  also have "\<dots> = Some fips_sha2_64_bit_constants"
    by code_simp
  finally show ?thesis .
qed

lemma sha2_32_bit_constants_eval: "sha2_32_bit_constants = Some fips_sha2_32_bit_constants"
proof -
  have "sha2_32_bit_constants = those (map (\<lambda>p. sha2_constant (ucast p :: 32 word) 3) (take 64 primes_table))"
    unfolding sha2_32_bit_constants_def by (simp add: generate_array_prime0)
  also have "\<dots> = Some fips_sha2_32_bit_constants"
    by code_simp
  finally show ?thesis .
qed

lemma sha224_initialization_vector_eval:
  "sha224_initialization_vector = Some fips_sha224_initialization_vector"
proof -
  have "sha224_initialization_vector
        = those (map (\<lambda>p. map_option ucast (sha2_constant p 2)) (take 8 (drop 8 primes_table)))"
    unfolding sha224_initialization_vector_def by (simp add: generate_array_prime)
  also have "\<dots> = Some fips_sha224_initialization_vector"
    by code_simp
  finally show ?thesis .
qed

lemma sha256_initialization_vector_eval:
  "sha256_initialization_vector = Some fips_sha256_initialization_vector"
proof -
  have "sha256_initialization_vector
        = those (map (\<lambda>p. sha2_constant (ucast p :: 32 word) 2) (take 8 primes_table))"
    unfolding sha256_initialization_vector_def by (simp add: generate_array_prime0)
  also have "\<dots> = Some fips_sha256_initialization_vector"
    by code_simp
  finally show ?thesis .
qed

lemma sha384_initialization_vector_eval:
  "sha384_initialization_vector = Some fips_sha384_initialization_vector"
proof -
  have "sha384_initialization_vector = those (map (\<lambda>p. sha2_constant p 2) (take 8 (drop 8 primes_table)))"
    unfolding sha384_initialization_vector_def by (simp add: generate_array_prime)
  also have "\<dots> = Some fips_sha384_initialization_vector"
    by code_simp
  finally show ?thesis .
qed

lemma sha512_initialization_vector_eval:
  "sha512_initialization_vector = Some fips_sha512_initialization_vector"
proof -
  have "sha512_initialization_vector = those (map (\<lambda>p. sha2_constant p 2) (take 8 primes_table))"
    unfolding sha512_initialization_vector_def by (simp add: generate_array_prime0)
  also have "\<dots> = Some fips_sha512_initialization_vector"
    by code_simp
  finally show ?thesis .
qed


section \<open>Evaluating the hash functions\<close>

subsection \<open>Rewrite rules for lists with numeral indices\<close>

lemma upt_0_numeral: "[0..<numeral n] = 0 # [Suc 0..<numeral n]"
  by (simp add: upt_rec)

lemma upt_1_numeral:
  "[Suc 0..<numeral n] = (if Suc 0 < (numeral n :: nat) then Suc 0 # [2..<numeral n] else [])"
  by (subst upt_rec) (simp add: numeral_2_eq_2)

lemma replicate_numeral: "replicate (numeral k) x = x # replicate (pred_numeral k) x"
  by (simp add: numeral_eq_Suc)

lemma list_update_numeral: "(x # xs)[numeral n := y] = x # xs[pred_numeral n := y]"
  by (simp add: numeral_eq_Suc)

lemmas eval_list = upt_0_numeral upt_1_numeral replicate_numeral list_update_numeral


section \<open>The derived constants\<close>

text \<open>
  Claim C7.  The table of 32-bit round constants, derived from the cube roots of the first
  sixty-four primes, has \<open>0x428a2f98\<close> at index 0; this number is the first 32 bits of the
  fractional part of the cube root of 2, that is, \<open>1 + 0x428a2f98 / 2 ^ 32\<close> cubed is at most 2
  and the next 32-bit fraction cubed is more than 2; and \<open>prime\<close> at the indices 0 to 4 returns
  2, 3, 5, 7 and 11.
\<close>

theorem round_constant_0_and_first_primes:
  "map_option (\<lambda>constants. constants ! 0) sha2_32_bit_constants = Some 0x428a2f98
   \<and> (2 ^ 32 + 0x428a2f98 :: nat) ^ 3 \<le> 2 * (2 ^ 32) ^ 3
   \<and> 2 * (2 ^ 32) ^ 3 < (2 ^ 32 + 0x428a2f98 + 1 :: nat) ^ 3
   \<and> map (\<lambda>index. prime index 2) [0, 1, 2, 3, 4] = [Some 2, Some 3, Some 5, Some 7, Some 11]"
proof -
  have "map_option (\<lambda>constants. constants ! 0) sha2_32_bit_constants = Some 0x428a2f98"
    by (simp add: sha2_32_bit_constants_eval fips_sha2_32_bit_constants_def)
  moreover have "(2 ^ 32 + 0x428a2f98 :: nat) ^ 3 \<le> 2 * (2 ^ 32) ^ 3"
    by simp
  moreover have "2 * (2 ^ 32) ^ 3 < (2 ^ 32 + 0x428a2f98 + 1 :: nat) ^ 3"
    by simp
  moreover have "map (\<lambda>index. prime index 2) [0, 1, 2, 3, 4] = [Some 2, Some 3, Some 5, Some 7, Some 11]"
    using prime_table [of 0] prime_table [of 1] prime_table [of 2] prime_table [of 3] prime_table [of 4]
    by (simp add: primes_table_def del: prime.simps)
  ultimately show ?thesis by blast
qed


end
